theory Spec2Isabelle
  imports Complex_Main "HOL-Library.Word"
begin

section \<open>Data model\<close>

text \<open>
  The compressor drives two external libraries, PyMuPDF (\<^verbatim>\<open>fitz\<close>) and Pillow
  (\<^verbatim>\<open>PIL.Image\<close>). Their objects are modelled by the data the program reads and
  writes: a document is its ordered pages, its table of image streams addressed by
  cross-reference number, and whether it has been closed. Whether a library call raises,
  and which bytes a codec or a renderer produces, is not decided by the program; it is
  taken as a parameter (record \<open>library\<close> below). A call that raises is modelled as
  leaving the document as it was before the call.
\<close>

type_synonym bytes = "8 word list"
type_synonym xref = nat

datatype error = Exception string

record page =
  rect_width :: real
  rect_height :: real
  get_images :: "xref list"
  contents :: bytes

record document =
  pages :: "page list"
  xref_stream :: "xref \<rightharpoonup> bytes"
  xref_length :: nat
  is_closed :: bool

text \<open>
  Python holds documents by reference. The store of live document objects is a list;
  a handle is an index into it, and creating a document appends to it.
\<close>

type_synonym handle = nat
type_synonym heap = "document list"

record library =
  extract_image :: "document \<Rightarrow> xref \<Rightarrow> error + bytes"
  pil_jpeg :: "bytes \<Rightarrow> int \<Rightarrow> error + bytes"
  update_image_raises :: "document \<Rightarrow> page \<Rightarrow> xref \<Rightarrow> bytes \<Rightarrow> error option"
  get_pixmap_ppm :: "document \<Rightarrow> page \<Rightarrow> error + bytes"
  new_page_raises :: "document \<Rightarrow> real \<Rightarrow> real \<Rightarrow> error option"
  insert_image_raises :: "document \<Rightarrow> real \<times> real \<Rightarrow> bytes \<Rightarrow> error option"
  fitz_open :: "string \<Rightarrow> bytes \<Rightarrow> error + document"
  doc_save :: "document \<Rightarrow> string \<Rightarrow> bytes option \<times> error option"

text \<open>
  \<^item> \<open>extract_image d x\<close>: \<^verbatim>\<open>doc.extract_image(xref)["image"]\<close>.
  \<^item> \<open>pil_jpeg b q\<close>: \<^verbatim>\<open>Image.open(io.BytesIO(b))\<close> followed by
    \<^verbatim>\<open>save(buf, format="JPEG", quality=q, optimize=True)\<close>; the bytes of the buffer,
    or the exception either call raised.
  \<^item> \<open>get_pixmap_ppm d p\<close>: \<^verbatim>\<open>page.get_pixmap(dpi=150).tobytes("ppm")\<close>.
  \<^item> \<open>update_image_raises\<close>, \<open>new_page_raises\<close>, \<open>insert_image_raises\<close>: the exception the
    call raises on these arguments, if it raises.
  \<^item> \<open>fitz_open path content\<close>: \<^verbatim>\<open>fitz.open(path)\<close> on a file with this content.
  \<^item> \<open>doc_save d path\<close>: \<^verbatim>\<open>save(path, garbage=4, deflate=True, clean=True)\<close>: the
    bytes it left at \<open>path\<close> (if it wrote any) and the exception it raised (if any).
\<close>

text \<open>
  What the program prints, one constructor per message, with the values the message
  shows: \<open>Initialized\<close> is the banner (profile name, output directory, quality),
  \<open>InfoRecompressed\<close> the line of \<^verbatim>\<open>compress_smart\<close> (recompressed images, total
  images), \<open>Successful\<close> the report of a successful run (output path, new size in MB,
  size reduction in percent), \<open>Failed\<close> the report of a failed one.
\<close>

datatype message =
    ErrorNotFound string
  | ErrorQuality
  | InfoCreatedDir string
  | ErrorCreateDir string error
  | Initialized string string int
  | OriginalSize real
  | RunningSmart
  | RunningAggressive
  | InfoRecompressed nat nat
  | FatalError error
  | Successful string real real
  | Failed

section \<open>Library calls on documents\<close>

definition update_image :: "library \<Rightarrow> document \<Rightarrow> page \<Rightarrow> xref \<Rightarrow> bytes \<Rightarrow> error + document" where
  "update_image L doc pg xref stream =
     (case update_image_raises L doc pg xref stream of
        Some e \<Rightarrow> Inl e
      | None \<Rightarrow> Inr (doc\<lparr>xref_stream := (xref_stream doc)(xref \<mapsto> stream)\<rparr>))"

definition empty_document :: document where
  "empty_document = \<lparr>pages = [], xref_stream = Map.empty, xref_length = 1, is_closed = False\<rparr>"

definition new_page :: "library \<Rightarrow> document \<Rightarrow> real \<Rightarrow> real \<Rightarrow> error + document" where
  "new_page L doc width height =
     (case new_page_raises L doc width height of
        Some e \<Rightarrow> Inl e
      | None \<Rightarrow> Inr (doc\<lparr>pages := pages doc @
          [\<lparr>rect_width = width, rect_height = height, get_images = [], contents = []\<rparr>]\<rparr>))"

text \<open>\<open>insert_image\<close> on the page just appended by \<open>new_page\<close> (the last page).\<close>

definition insert_image :: "library \<Rightarrow> document \<Rightarrow> real \<times> real \<Rightarrow> bytes \<Rightarrow> error + document" where
  "insert_image L doc rect stream =
     (case insert_image_raises L doc rect stream of
        Some e \<Rightarrow> Inl e
      | None \<Rightarrow>
          (let pno = length (pages doc) - 1;
               pg = pages doc ! pno;
               x = xref_length doc
           in Inr (doc\<lparr>pages := (pages doc)[pno := pg\<lparr>get_images := get_images pg @ [x]\<rparr>],
                       xref_stream := (xref_stream doc)(x \<mapsto> stream),
                       xref_length := x + 1\<rparr>)))"

definition close :: "heap \<Rightarrow> handle \<Rightarrow> heap" where
  "close hp h = hp[h := (hp ! h)\<lparr>is_closed := True\<rparr>]"

section \<open>compress_smart\<close>

text \<open>
  The body of the \<^verbatim>\<open>try\<close> of \<^verbatim>\<open>compress_smart\<close>: extract the image bytes, re-encode
  them with Pillow, replace the image. \<open>Inl\<close> is the exception that the \<^verbatim>\<open>except\<close>
  clause receives.
\<close>

definition recompress_image :: "library \<Rightarrow> int \<Rightarrow> document \<Rightarrow> page \<Rightarrow> xref \<Rightarrow> error + document" where
  "recompress_image L quality doc pg xref =
     (case extract_image L doc xref of
        Inl e \<Rightarrow> Inl e
      | Inr image_bytes \<Rightarrow>
          (case pil_jpeg L image_bytes quality of
             Inl e \<Rightarrow> Inl e
           | Inr img_buffer \<Rightarrow> update_image L doc pg xref img_buffer))"

text \<open>
  The inner loop over the images of one page. The state is the store, \<^verbatim>\<open>image_count\<close>
  and \<^verbatim>\<open>total_images\<close>. The \<^verbatim>\<open>except Exception: continue\<close> is the \<open>Inl\<close> branch.
\<close>

fun smart_images ::
  "library \<Rightarrow> int \<Rightarrow> handle \<Rightarrow> page \<Rightarrow> xref list \<Rightarrow> heap \<times> nat \<times> nat \<Rightarrow> heap \<times> nat \<times> nat" where
  "smart_images L quality doc pg [] s = s"
| "smart_images L quality doc pg (xref # imgs) (hp, image_count, total_images) =
     (case recompress_image L quality (hp ! doc) pg xref of
        Inr doc' \<Rightarrow>
          smart_images L quality doc pg imgs (hp[doc := doc'], image_count + 1, total_images + 1)
      | Inl e \<Rightarrow>
          smart_images L quality doc pg imgs (hp, image_count, total_images + 1))"

text \<open>
  The outer loop over the pages. Replacing an image stream does not change the page list,
  so the pages are those of the document when the loop starts. The progress line written
  per page carries no state and is left out.
\<close>

fun smart_pages ::
  "library \<Rightarrow> int \<Rightarrow> handle \<Rightarrow> page list \<Rightarrow> heap \<times> nat \<times> nat \<Rightarrow> heap \<times> nat \<times> nat" where
  "smart_pages L quality doc [] s = s"
| "smart_pages L quality doc (pg # pgs) s =
     smart_pages L quality doc pgs (smart_images L quality doc pg (get_images pg) s)"

text \<open>Returns the store, what was printed, and the returned \<^verbatim>\<open>image_count\<close>.\<close>

definition compress_smart :: "library \<Rightarrow> heap \<Rightarrow> handle \<Rightarrow> int \<Rightarrow> heap \<times> message list \<times> nat" where
  "compress_smart L hp doc quality =
     (case smart_pages L quality doc (pages (hp ! doc)) (hp, 0, 0) of
        (hp', image_count, total_images) \<Rightarrow>
          (hp', [InfoRecompressed image_count total_images], image_count))"

subsection \<open>The image references of a document and the outcome of each attempt\<close>

text \<open>
  The definitions of this subsection are not functions of the program, and they use none
  of its functions. They say, in terms of the library calls alone, what the statements
  about \<^verbatim>\<open>compress_smart\<close> speak of:
  \<^item> the image references the two loops meet, in order;
  \<^item> the outcome of one attempt on a document: the image is recompressed when the
    extraction returns bytes, the codec re-encodes them and the replacement does not
    raise, and it is skipped with the exception of the first call that raises;
  \<^item> the document after an attempt: a recompressed image has the re-encoded bytes as its
    stream, a skipped one leaves the document as it was;
  \<^item> the outcomes of all attempts and the store after them, each attempt starting from
    the store the earlier ones left.
\<close>

definition image_references :: "document \<Rightarrow> (page \<times> xref) list" where
  "image_references d = concat (map (\<lambda>pg. map (Pair pg) (get_images pg)) (pages d))"

datatype attempt_result = Skipped error | Recompressed bytes

fun recompressed :: "attempt_result \<Rightarrow> bool" where
  "recompressed (Skipped e) = False"
| "recompressed (Recompressed img) = True"

definition attempt :: "library \<Rightarrow> int \<Rightarrow> document \<Rightarrow> page \<Rightarrow> xref \<Rightarrow> attempt_result" where
  "attempt L quality d pg x =
     (case extract_image L d x of
        Inl e \<Rightarrow> Skipped e
      | Inr image_bytes \<Rightarrow>
          (case pil_jpeg L image_bytes quality of
             Inl e \<Rightarrow> Skipped e
           | Inr img \<Rightarrow>
               (case update_image_raises L d pg x img of
                  Some e \<Rightarrow> Skipped e
                | None \<Rightarrow> Recompressed img)))"

definition after_attempt :: "document \<Rightarrow> xref \<Rightarrow> attempt_result \<Rightarrow> document" where
  "after_attempt d x r =
     (case r of
        Skipped e \<Rightarrow> d
      | Recompressed img \<Rightarrow> d\<lparr>xref_stream := (xref_stream d)(x \<mapsto> img)\<rparr>)"

fun attempts ::
  "library \<Rightarrow> int \<Rightarrow> handle \<Rightarrow> (page \<times> xref) list \<Rightarrow> heap \<Rightarrow> attempt_result list" where
  "attempts L quality doc [] hp = []"
| "attempts L quality doc ((pg, x) # refs) hp =
     attempt L quality (hp ! doc) pg x
       # attempts L quality doc refs
           (hp[doc := after_attempt (hp ! doc) x (attempt L quality (hp ! doc) pg x)])"

fun store_after :: "library \<Rightarrow> int \<Rightarrow> handle \<Rightarrow> (page \<times> xref) list \<Rightarrow> heap \<Rightarrow> heap" where
  "store_after L quality doc [] hp = hp"
| "store_after L quality doc ((pg, x) # refs) hp =
     store_after L quality doc refs
       (hp[doc := after_attempt (hp ! doc) x (attempt L quality (hp ! doc) pg x)])"

section \<open>compress_aggressive\<close>

text \<open>
  Rendering and encoding one page: \<^verbatim>\<open>page.get_pixmap(dpi=150)\<close>,
  \<^verbatim>\<open>Image.open(io.BytesIO(pix.tobytes("ppm")))\<close> and the \<^verbatim>\<open>save\<close> as JPEG.
\<close>

definition rasterize_page :: "library \<Rightarrow> int \<Rightarrow> document \<Rightarrow> page \<Rightarrow> error + bytes" where
  "rasterize_page L quality doc pg =
     (case get_pixmap_ppm L doc pg of
        Inl e \<Rightarrow> Inl e
      | Inr ppm \<Rightarrow> pil_jpeg L ppm quality)"

text \<open>
  One iteration per page: render and encode, append a page of the same size to the output
  document, place the image. Nothing is caught: the first exception ends the loop, and the
  store is what it was when the exception was raised.
\<close>

fun aggressive_pages ::
  "library \<Rightarrow> int \<Rightarrow> handle \<Rightarrow> handle \<Rightarrow> page list \<Rightarrow> heap \<Rightarrow> heap \<times> error option" where
  "aggressive_pages L quality doc output_doc [] hp = (hp, None)"
| "aggressive_pages L quality doc output_doc (pg # pgs) hp =
     (case rasterize_page L quality (hp ! doc) pg of
        Inl e \<Rightarrow> (hp, Some e)
      | Inr img_buffer \<Rightarrow>
          (case new_page L (hp ! output_doc) (rect_width pg) (rect_height pg) of
             Inl e \<Rightarrow> (hp, Some e)
           | Inr out1 \<Rightarrow>
               (case insert_image L out1 (rect_width pg, rect_height pg) img_buffer of
                  Inl e \<Rightarrow> (hp[output_doc := out1], Some e)
                | Inr out2 \<Rightarrow>
                    aggressive_pages L quality doc output_doc pgs (hp[output_doc := out2]))))"

text \<open>\<^verbatim>\<open>fitz.open()\<close> creates the output document: a new object in the store.\<close>

definition compress_aggressive :: "library \<Rightarrow> heap \<Rightarrow> handle \<Rightarrow> int \<Rightarrow> heap \<times> (error + handle)" where
  "compress_aggressive L hp doc quality =
     (let output_doc = length hp;
          hp0 = hp @ [empty_document]
      in case aggressive_pages L quality doc output_doc (pages (hp0 ! doc)) hp0 of
           (hp', Some e) \<Rightarrow> (hp', Inl e)
         | (hp', None) \<Rightarrow> (hp', Inr output_doc))"

section \<open>The command line and the file system\<close>

text \<open>
  \<^verbatim>\<open>argparse\<close> has already checked the arguments when \<^verbatim>\<open>main\<close> reads them:
  \<^verbatim>\<open>--mode\<close> and \<^verbatim>\<open>--profile\<close> are one of their choices, \<^verbatim>\<open>--quality\<close> is an
  \<^verbatim>\<open>int\<close> or absent (\<open>None\<close>).
\<close>

datatype mode = Smart | Aggressive

datatype profile = Low | Medium | High | Best

fun COMPRESSION_PROFILES :: "profile \<Rightarrow> int" where
  "COMPRESSION_PROFILES Low = 20"
| "COMPRESSION_PROFILES Medium = 40"
| "COMPRESSION_PROFILES High = 60"
| "COMPRESSION_PROFILES Best = 80"

fun profile_key :: "profile \<Rightarrow> string" where
  "profile_key Low = ''low''"
| "profile_key Medium = ''medium''"
| "profile_key High = ''high''"
| "profile_key Best = ''best''"

record args =
  input_file :: string
  mode :: mode
  profile :: profile
  quality :: "int option"
  output_dir :: string

datatype node = File bytes | Dir

type_synonym filesystem = "string \<rightharpoonup> node"

text \<open>
  What the operating system and the standard library decide: whether \<^verbatim>\<open>os.makedirs\<close>
  raises, the clock, the size the system reports for a directory, and the path and
  number formatting functions.
\<close>

record system =
  makedirs_raises :: "string \<Rightarrow> error option"
  time_time :: int
  dir_size :: "string \<Rightarrow> nat"
  basename :: "string \<Rightarrow> string"
  splitext :: "string \<Rightarrow> string \<times> string"
  path_join :: "string \<Rightarrow> string \<Rightarrow> string"
  str :: "int \<Rightarrow> string"

definition isfile :: "filesystem \<Rightarrow> string \<Rightarrow> bool" where
  "isfile fs p = (case fs p of Some (File b) \<Rightarrow> True | _ \<Rightarrow> False)"

definition exists :: "filesystem \<Rightarrow> string \<Rightarrow> bool" where
  "exists fs p = (case fs p of None \<Rightarrow> False | Some n \<Rightarrow> True)"

definition getsize :: "system \<Rightarrow> filesystem \<Rightarrow> string \<Rightarrow> error + nat" where
  "getsize S fs p =
     (case fs p of
        None \<Rightarrow> Inl (Exception ''FileNotFoundError'')
      | Some (File b) \<Rightarrow> Inr (length b)
      | Some Dir \<Rightarrow> Inr (dir_size S p))"

text \<open>Python's truth value of \<^verbatim>\<open>args.quality\<close>: \<^verbatim>\<open>None\<close> and \<^verbatim>\<open>0\<close> are false.\<close>

definition truth_quality :: "int option \<Rightarrow> bool" where
  "truth_quality q = (case q of None \<Rightarrow> False | Some n \<Rightarrow> n \<noteq> 0)"

text \<open>
  Python's truth value of a document object is that of its \<^verbatim>\<open>__len__\<close>, the number
  of pages.
\<close>

definition truth_document :: "document \<Rightarrow> bool" where
  "truth_document d = (pages d \<noteq> [])"

section \<open>get_output_path\<close>

definition get_output_path ::
  "system \<Rightarrow> filesystem \<Rightarrow> string \<Rightarrow> string \<Rightarrow> string \<Rightarrow> int
     \<Rightarrow> filesystem \<times> message list \<times> string option" where
  "get_output_path S fs input_path out_dir profile_name quality_val =
     (let base_name = basename S input_path;
          new_filename = fst (splitext S base_name) @ ''__'' @ profile_name @ ''_q''
            @ str S quality_val @ ''_'' @ str S (time_time S) @ snd (splitext S base_name);
          result = Some (path_join S out_dir new_filename)
      in if \<not> exists fs out_dir then
           (case makedirs_raises S out_dir of
              Some e \<Rightarrow> (fs, [ErrorCreateDir out_dir e], None)
            | None \<Rightarrow> (fs(out_dir \<mapsto> Dir), [InfoCreatedDir out_dir], result))
         else (fs, [], result))"

section \<open>main\<close>

record outcome =
  final_fs :: filesystem
  final_heap :: heap
  printed :: "message list"
  exit_status :: int

text \<open>\<^verbatim>\<open>save(output_path, garbage=4, deflate=True, clean=True)\<close> on the file system.\<close>

definition save :: "library \<Rightarrow> document \<Rightarrow> string \<Rightarrow> filesystem \<Rightarrow> filesystem \<times> error option" where
  "save L d output_path fs =
     (case doc_save L d output_path of
        (None, r) \<Rightarrow> (fs, r)
      | (Some b, r) \<Rightarrow> (fs(output_path \<mapsto> File b), r))"

text \<open>The \<^verbatim>\<open>finally\<close> clause: \<^verbatim>\<open>if doc: doc.close()\<close>.\<close>

definition finally_close :: "heap \<Rightarrow> handle \<Rightarrow> heap" where
  "finally_close hp doc = (if truth_document (hp ! doc) then close hp doc else hp)"

text \<open>
  The \<^verbatim>\<open>try\<close> / \<^verbatim>\<open>except\<close> / \<^verbatim>\<open>finally\<close> statement of \<^verbatim>\<open>main\<close>. The store of the
  process is empty before it. The result is the file system, the store, what was printed
  and \<^verbatim>\<open>success\<close>.
\<close>

definition try_compress ::
  "library \<Rightarrow> filesystem \<Rightarrow> args \<Rightarrow> int \<Rightarrow> string
     \<Rightarrow> filesystem \<times> heap \<times> message list \<times> bool" where
  "try_compress L fs a quality_val output_path =
     (case (case fs (input_file a) of
              Some (File content) \<Rightarrow> fitz_open L (input_file a) content
            | _ \<Rightarrow> Inl (Exception ''FileNotFoundError'')) of
        Inl e \<Rightarrow> (fs, [], [FatalError e], False)
      | Inr d \<Rightarrow>
          (let hp = [d\<lparr>is_closed := False\<rparr>]; doc = 0
           in case mode a of
                Smart \<Rightarrow>
                  (case compress_smart L hp doc quality_val of
                     (hp1, out, n) \<Rightarrow>
                       (case save L (hp1 ! doc) output_path fs of
                          (fs1, Some e) \<Rightarrow>
                            (fs1, finally_close hp1 doc, RunningSmart # out @ [FatalError e], False)
                        | (fs1, None) \<Rightarrow>
                            (fs1, finally_close hp1 doc, RunningSmart # out, True)))
              | Aggressive \<Rightarrow>
                  (case compress_aggressive L hp doc quality_val of
                     (hp1, Inl e) \<Rightarrow>
                       (fs, finally_close hp1 doc, [RunningAggressive, FatalError e], False)
                   | (hp1, Inr output_doc) \<Rightarrow>
                       (case save L (hp1 ! output_doc) output_path fs of
                          (fs1, Some e) \<Rightarrow>
                            (fs1, finally_close hp1 doc, [RunningAggressive, FatalError e], False)
                        | (fs1, None) \<Rightarrow>
                            (fs1, finally_close (close hp1 output_doc) doc,
                             [RunningAggressive], True)))))"

text \<open>
  \<^verbatim>\<open>reduction_percent\<close>. Python computes in binary floating point; the model computes
  in the real numbers.
\<close>

definition reduction_percent :: "real \<Rightarrow> real \<Rightarrow> real" where
  "reduction_percent compressed_size_mb original_size_mb =
     (if original_size_mb > 0 then (1 - compressed_size_mb / original_size_mb) * 100 else 0)"

text \<open>
  The report after the \<^verbatim>\<open>try\<close> statement. An exception here is not caught by anything:
  the interpreter prints the traceback and the exit status is 1. When \<^verbatim>\<open>main\<close>
  returns, the exit status is 0. The measured duration is left out of the report.
\<close>

definition report ::
  "system \<Rightarrow> filesystem \<Rightarrow> string \<Rightarrow> real \<Rightarrow> bool \<Rightarrow> filesystem \<times> message list \<times> int" where
  "report S fs output_path original_size_mb success =
     (if success \<and> exists fs output_path then
        (case getsize S fs output_path of
           Inl e \<Rightarrow> (fs, [], 1)
         | Inr n \<Rightarrow>
             (let compressed_size_mb = real n / (1024 * 1024)
              in (fs, [Successful output_path compressed_size_mb
                         (reduction_percent compressed_size_mb original_size_mb)], 0)))
      else
        (case fs output_path of
           None \<Rightarrow> (fs, [Failed], 0)
         | Some (File b) \<Rightarrow> (fs(output_path := None), [Failed], 0)
         | Some Dir \<Rightarrow> (fs, [Failed], 1)))"

text \<open>
  \<^verbatim>\<open>main\<close>, from the parsed arguments to the exit status of the process.
  \<^verbatim>\<open>sys.exit(1)\<close> ends the run with status 1. Where \<^verbatim>\<open>args.quality\<close> is true it
  is an integer, so \<open>the (quality a)\<close> is read only where \<open>quality a\<close> is \<open>Some n\<close>.
\<close>

definition main :: "library \<Rightarrow> system \<Rightarrow> args \<Rightarrow> filesystem \<Rightarrow> outcome" where
  "main L S a fs =
     (if \<not> isfile fs (input_file a) then
        \<lparr>final_fs = fs, final_heap = [], printed = [ErrorNotFound (input_file a)], exit_status = 1\<rparr>
      else if truth_quality (quality a) \<and> \<not> (1 \<le> the (quality a) \<and> the (quality a) \<le> 95) then
        \<lparr>final_fs = fs, final_heap = [], printed = [ErrorQuality], exit_status = 1\<rparr>
      else
        (let quality_val = (if truth_quality (quality a) then the (quality a)
                            else COMPRESSION_PROFILES (profile a));
             profile_name = (if truth_quality (quality a) then ''custom''
                             else profile_key (profile a));
             banner = [Initialized profile_name (output_dir a) quality_val]
         in case get_output_path S fs (input_file a) (output_dir a) profile_name quality_val of
              (fs1, out1, output_path) \<Rightarrow>
                if output_path = None \<or> output_path = Some [] then
                  \<lparr>final_fs = fs1, final_heap = [], printed = banner @ out1, exit_status = 1\<rparr>
                else
                  (case getsize S fs1 (input_file a) of
                     Inl e \<Rightarrow>
                       \<lparr>final_fs = fs1, final_heap = [], printed = banner @ out1, exit_status = 1\<rparr>
                   | Inr n \<Rightarrow>
                       (let original_size_mb = real n / (1024 * 1024)
                        in case try_compress L fs1 a quality_val (the output_path) of
                             (fs2, hp, out2, success) \<Rightarrow>
                               (case report S fs2 (the output_path) original_size_mb success of
                                  (fs3, out3, status) \<Rightarrow>
                                    \<lparr>final_fs = fs3, final_heap = hp,
                                     printed = banner @ out1 @ [OriginalSize original_size_mb]
                                       @ out2 @ out3,
                                     exit_status = status\<rparr>)))))"

section \<open>Example inputs\<close>

text \<open>
  A two-page document with two image streams; stream 6 is empty, which the example codec
  cannot decode. The example library raises nowhere else.
\<close>

definition example_document :: document where
  "example_document =
     \<lparr>pages = [\<lparr>rect_width = 612, rect_height = 792, get_images = [5, 6], contents = [66, 84]\<rparr>,
               \<lparr>rect_width = 595, rect_height = 842, get_images = [6], contents = []\<rparr>],
      xref_stream = [5 \<mapsto> [255, 216, 255, 224], 6 \<mapsto> []],
      xref_length = 7,
      is_closed = False\<rparr>"

definition example_library :: library where
  "example_library =
     \<lparr>extract_image = (\<lambda>d x. case xref_stream d x of
                                None \<Rightarrow> Inl (Exception ''KeyError: image'')
                              | Some image_bytes \<Rightarrow> Inr image_bytes),
      pil_jpeg = (\<lambda>b q. if b = [] then Inl (Exception ''cannot identify image file'')
                          else Inr (take 2 b)),
      update_image_raises = (\<lambda>d p x b. None),
      get_pixmap_ppm = (\<lambda>d p. Inr (80 # 54 # contents p)),
      new_page_raises = (\<lambda>d w h. None),
      insert_image_raises = (\<lambda>d r b. None),
      fitz_open = (\<lambda>path content. if content = [] then Inl (Exception ''Cannot open empty file'')
                                    else Inr example_document),
      doc_save = (\<lambda>d path. (Some [37, 80, 68, 70], None))\<rparr>"

text \<open>
  An operating system that raises nowhere, a file system holding one eight-byte input
  file, and the default arguments. The example \<open>str\<close> knows the two numbers the
  example formats.
\<close>

definition example_system :: system where
  "example_system =
     \<lparr>makedirs_raises = (\<lambda>p. None),
      time_time = 7,
      dir_size = (\<lambda>p. 4096),
      basename = (\<lambda>p. p),
      splitext = (\<lambda>p. (takeWhile (\<lambda>c. c \<noteq> CHR ''.'') p, dropWhile (\<lambda>c. c \<noteq> CHR ''.'') p)),
      path_join = (\<lambda>d f. d @ ''/'' @ f),
      str = (\<lambda>n. if n = 40 then ''40'' else if n = 7 then ''7'' else ''0'')\<rparr>"

definition example_fs :: filesystem where
  "example_fs = [''a.pdf'' \<mapsto> File [37, 80, 68, 70, 45, 49, 46, 52]]"

definition example_args :: args where
  "example_args =
     \<lparr>input_file = ''a.pdf'', mode = Smart, profile = Medium, quality = None,
      output_dir = ''out''\<rparr>"

section \<open>Unfolding the definitions on concrete inputs\<close>

lemmas main_defs = main_def isfile_def exists_def getsize_def truth_quality_def
  get_output_path_def try_compress_def report_def save_def finally_close_def close_def
  truth_document_def reduction_percent_def Let_def
lemmas smart_defs = compress_smart_def recompress_image_def update_image_def
lemmas aggressive_defs = compress_aggressive_def rasterize_page_def new_page_def insert_image_def
  empty_document_def
lemmas example_defs = example_system_def example_fs_def example_args_def example_library_def
  example_document_def

section \<open>Page count and page geometry in aggressive mode\<close>

lemma new_page_pages:
  "new_page L d w h = Inr d' \<Longrightarrow>
     pages d' = pages d @ [\<lparr>rect_width = w, rect_height = h, get_images = [], contents = []\<rparr>]"
  by (auto simp: new_page_def split: option.splits)

lemma map_update_nth_same: "(map f xs)[i := f (xs ! i)] = map f xs"
  by (metis list_update_id map_update)

lemma insert_image_geometry:
  assumes "insert_image L d r s = Inr d'"
  shows "map rect_width (pages d') = map rect_width (pages d)"
    and "map rect_height (pages d') = map rect_height (pages d)"
  using assms
  by (auto simp: insert_image_def Let_def map_update map_update_nth_same split: option.splits)

lemma aggressive_pages_geometry:
  assumes "output_doc < length hp" "doc \<noteq> output_doc"
    and "aggressive_pages L q doc output_doc pgs hp = (hp', None)"
  shows "length hp' = length hp \<and> hp' ! doc = hp ! doc
       \<and> map rect_width (pages (hp' ! output_doc))
           = map rect_width (pages (hp ! output_doc)) @ map rect_width pgs
       \<and> map rect_height (pages (hp' ! output_doc))
           = map rect_height (pages (hp ! output_doc)) @ map rect_height pgs"
  using assms
proof (induction pgs arbitrary: hp)
  case Nil
  then show ?case by simp
next
  case (Cons pg pgs)
  from Cons.prems(3) obtain buf out1 out2 where
    np: "new_page L (hp ! output_doc) (rect_width pg) (rect_height pg) = Inr out1"
    and ii: "insert_image L out1 (rect_width pg, rect_height pg) buf = Inr out2"
    and rest: "aggressive_pages L q doc output_doc pgs (hp[output_doc := out2]) = (hp', None)"
    by (auto split: sum.splits)
  have "output_doc < length (hp[output_doc := out2])" using Cons.prems(1) by simp
  from Cons.IH[OF this Cons.prems(2) rest] Cons.prems(1,2)
    new_page_pages[OF np] insert_image_geometry[OF ii]
  show ?case by simp
qed

text \<open>
  C1. Whenever \<^verbatim>\<open>compress_aggressive\<close> returns a document, that document has as many
  pages as the input document, and its page at every index has the width and the height
  of the input page at that index. The input document is left as it was.
\<close>

theorem compress_aggressive_page_geometry:
  assumes "doc < length hp"
    and "compress_aggressive L hp doc q = (hp', Inr output_doc)"
  shows "hp' ! doc = hp ! doc
       \<and> length (pages (hp' ! output_doc)) = length (pages (hp ! doc))
       \<and> (\<forall>i < length (pages (hp ! doc)).
            rect_width (pages (hp' ! output_doc) ! i) = rect_width (pages (hp ! doc) ! i)
          \<and> rect_height (pages (hp' ! output_doc) ! i) = rect_height (pages (hp ! doc) ! i))"
proof -
  let ?hp0 = "hp @ [empty_document]"
  from assms(2) have out: "output_doc = length hp"
    and run: "aggressive_pages L q doc (length hp) (pages (?hp0 ! doc)) ?hp0 = (hp', None)"
    by (auto simp: compress_aggressive_def Let_def split: prod.splits option.splits)
  have src: "?hp0 ! doc = hp ! doc" using assms(1) by (simp add: nth_append)
  have "length hp < length ?hp0" by simp
  moreover have "doc \<noteq> length hp" using assms(1) by simp
  ultimately have inv: "hp' ! doc = ?hp0 ! doc
    \<and> map rect_width (pages (hp' ! length hp))
        = map rect_width (pages (?hp0 ! length hp)) @ map rect_width (pages (?hp0 ! doc))
    \<and> map rect_height (pages (hp' ! length hp))
        = map rect_height (pages (?hp0 ! length hp)) @ map rect_height (pages (?hp0 ! doc))"
    using aggressive_pages_geometry[OF _ _ run] by blast
  then have w: "map rect_width (pages (hp' ! output_doc)) = map rect_width (pages (hp ! doc))"
    and h: "map rect_height (pages (hp' ! output_doc)) = map rect_height (pages (hp ! doc))"
    using assms(1) by (simp_all add: out nth_append empty_document_def)
  have len: "length (pages (hp' ! output_doc)) = length (pages (hp ! doc))"
    using w by (rule map_eq_imp_length_eq)
  have "rect_width (pages (hp' ! output_doc) ! i) = rect_width (pages (hp ! doc) ! i)
      \<and> rect_height (pages (hp' ! output_doc) ! i) = rect_height (pages (hp ! doc) ! i)"
    if "i < length (pages (hp ! doc))" for i
    using that len w h by (metis nth_map)
  with inv src len show ?thesis by simp
qed

theorem compress_aggressive_page_geometry_witness:
  "(0::nat) < length [example_document]
   \<and> snd (compress_aggressive example_library [example_document] 0 40) = Inr 1
   \<and> length (pages (fst (compress_aggressive example_library [example_document] 0 40) ! 1)) = 2
   \<and> rect_width (pages (fst (compress_aggressive example_library [example_document] 0 40) ! 1) ! 1)
       = 595"
proof -
  have r: "snd (compress_aggressive example_library [example_document] 0 40) = Inr 1"
    by (simp add: compress_aggressive_def example_library_def example_document_def
        empty_document_def new_page_def insert_image_def rasterize_page_def Let_def)
  then have "compress_aggressive example_library [example_document] 0 40
      = (fst (compress_aggressive example_library [example_document] 0 40), Inr 1)"
    by (metis prod.collapse)
  from compress_aggressive_page_geometry[OF _ this] r show ?thesis
    by (simp add: example_document_def)
qed

section \<open>Errors in compress_aggressive\<close>

lemma aggressive_pages_append:
  "aggressive_pages L q doc output_doc (ps @ qs) hp
     = (case aggressive_pages L q doc output_doc ps hp of
          (hp1, None) \<Rightarrow> aggressive_pages L q doc output_doc qs hp1
        | (hp1, Some e) \<Rightarrow> (hp1, Some e))"
  by (induction ps arbitrary: hp) (auto split: sum.splits)

lemma aggressive_pages_source:
  assumes "doc \<noteq> output_doc"
    and "aggressive_pages L q doc output_doc pgs hp = (hp', r)"
  shows "hp' ! doc = hp ! doc"
  using assms
  by (induction pgs arbitrary: hp) (auto split: sum.splits)

lemma aggressive_pages_failing:
  assumes "doc \<noteq> output_doc" and "pg \<in> set pgs"
    and "rasterize_page L q (hp ! doc) pg = Inl e"
  shows "\<exists>e'. snd (aggressive_pages L q doc output_doc pgs hp) = Some e'"
  using assms
proof (induction pgs arbitrary: hp)
  case Nil
  then show ?case by simp
next
  case (Cons p pgs)
  show ?case
  proof (cases "p = pg")
    case True
    with Cons.prems(3) show ?thesis by simp
  next
    case False
    with Cons.prems(2) have mem: "pg \<in> set pgs" by simp
    have "\<exists>e'. snd (aggressive_pages L q doc output_doc pgs (hp[output_doc := out2])) = Some e'"
      for out2
      using Cons.IH[OF Cons.prems(1) mem, of "hp[output_doc := out2]"] Cons.prems(1,3)
      by simp
    then show ?thesis by (auto split: sum.splits)
  qed
qed

text \<open>
  C4. Let rendering or encoding raise \<open>e\<close> on some page \<open>pg\<close> of the input document.
  Then \<^verbatim>\<open>compress_aggressive\<close> returns no document: it ends with an exception. When
  the pages before \<open>pg\<close> went through, the exception is \<open>e\<close> itself and the store is
  the one those pages left. In \<^verbatim>\<open>main\<close>, an exception \<open>e'\<close> of
  \<^verbatim>\<open>compress_aggressive\<close> reaches the \<^verbatim>\<open>except\<close> clause of the \<^verbatim>\<open>try\<close>
  statement: nothing is saved, the file system is unchanged, \<open>e'\<close> is printed and
  \<^verbatim>\<open>success\<close> is false.
\<close>

theorem compress_aggressive_propagates:
  assumes "doc < length hp"
    and "pages (hp ! doc) = ps @ pg # rest"
    and "rasterize_page L q (hp ! doc) pg = Inl e"
  shows "(\<exists>e'. snd (compress_aggressive L hp doc q) = Inl e')
       \<and> (\<forall>hp1. aggressive_pages L q doc (length hp) ps (hp @ [empty_document]) = (hp1, None)
             \<longrightarrow> compress_aggressive L hp doc q = (hp1, Inl e))
       \<and> (\<forall>a fs p content d hp' e'.
             mode a = Aggressive \<and> fs (input_file a) = Some (File content)
               \<and> fitz_open L (input_file a) content = Inr d
               \<and> compress_aggressive L [d\<lparr>is_closed := False\<rparr>] 0 q = (hp', Inl e')
             \<longrightarrow> try_compress L fs a q p
                   = (fs, finally_close hp' 0, [RunningAggressive, FatalError e'], False))"
proof -
  let ?hp0 = "hp @ [empty_document]"
  have ne: "doc \<noteq> length hp" using assms(1) by simp
  have src: "?hp0 ! doc = hp ! doc" using assms(1) by (simp add: nth_append)
  have mem: "pg \<in> set (pages (?hp0 ! doc))" by (simp add: src assms(2))
  have "rasterize_page L q (?hp0 ! doc) pg = Inl e" using assms(3) src by simp
  from aggressive_pages_failing[OF ne mem this]
  obtain e' where "snd (aggressive_pages L q doc (length hp) (pages (?hp0 ! doc)) ?hp0) = Some e'"
    by auto
  then have A: "\<exists>e'. snd (compress_aggressive L hp doc q) = Inl e'"
    by (auto simp: compress_aggressive_def Let_def split: prod.splits option.splits)
  have B: "compress_aggressive L hp doc q = (hp1, Inl e)"
    if pre: "aggressive_pages L q doc (length hp) ps ?hp0 = (hp1, None)" for hp1
  proof -
    have "hp1 ! doc = hp ! doc"
      using aggressive_pages_source[OF ne pre] src by simp
    then have "aggressive_pages L q doc (length hp) (pg # rest) hp1 = (hp1, Some e)"
      using assms(3) by simp
    then have "aggressive_pages L q doc (length hp) (pages (?hp0 ! doc)) ?hp0 = (hp1, Some e)"
      using pre by (simp add: src assms(2) aggressive_pages_append)
    then show ?thesis by (simp add: compress_aggressive_def Let_def)
  qed
  have C: "try_compress L fs a q p
             = (fs, finally_close hp' 0, [RunningAggressive, FatalError e'], False)"
    if "mode a = Aggressive \<and> fs (input_file a) = Some (File content)
          \<and> fitz_open L (input_file a) content = Inr d
          \<and> compress_aggressive L [d\<lparr>is_closed := False\<rparr>] 0 q = (hp', Inl e')"
    for a fs p content d hp' e'
    using that by (simp add: try_compress_def Let_def)
  from A B C show ?thesis by blast
qed

theorem compress_aggressive_propagates_witness:
  "rasterize_page
     (example_library\<lparr>get_pixmap_ppm := (\<lambda>d p. if contents p = []
        then Inl (Exception ''cannot render'') else Inr (contents p))\<rparr>)
     40 example_document (pages example_document ! 1) = Inl (Exception ''cannot render'')
   \<and> snd (compress_aggressive
        (example_library\<lparr>get_pixmap_ppm := (\<lambda>d p. if contents p = []
           then Inl (Exception ''cannot render'') else Inr (contents p))\<rparr>)
        [example_document] 0 40) = Inl (Exception ''cannot render'')
   \<and> snd (snd (try_compress
        (example_library\<lparr>get_pixmap_ppm := (\<lambda>d p. if contents p = []
           then Inl (Exception ''cannot render'') else Inr (contents p))\<rparr>)
        example_fs (example_args\<lparr>mode := Aggressive\<rparr>) 40 ''out/a.pdf''))
       = ([RunningAggressive, FatalError (Exception ''cannot render'')], False)"
proof -
  let ?L = "example_library\<lparr>get_pixmap_ppm := (\<lambda>d p. if contents p = []
        then Inl (Exception ''cannot render'') else Inr (contents p))\<rparr>"
  let ?pre = "aggressive_pages ?L 40 0 (length [example_document]) [pages example_document ! 0]
      ([example_document] @ [empty_document])"
  let ?args = "example_args\<lparr>mode := Aggressive\<rparr>"
  have 1: "(0::nat) < length [example_document]" by simp
  have 2: "pages ([example_document] ! 0)
      = [pages example_document ! 0] @ (pages example_document ! 1) # []"
    by (simp add: example_document_def)
  have 3: "rasterize_page ?L 40 ([example_document] ! 0) (pages example_document ! 1)
      = Inl (Exception ''cannot render'')"
    by (simp add: rasterize_page_def example_library_def example_document_def)
  note T = compress_aggressive_propagates[OF 1 2 3]
  have "snd ?pre = None"
    by (simp add: aggressive_defs example_library_def example_document_def Let_def)
  with prod.collapse[of ?pre] have pre: "?pre = (fst ?pre, None)" by (simp only:)
  note B = T[THEN conjunct2, THEN conjunct1, rule_format, OF pre]
  have 4: "mode ?args = Aggressive
      \<and> example_fs (input_file ?args) = Some (File [37, 80, 68, 70, 45, 49, 46, 52])
      \<and> fitz_open ?L (input_file ?args) [37, 80, 68, 70, 45, 49, 46, 52] = Inr example_document
      \<and> compress_aggressive ?L [example_document\<lparr>is_closed := False\<rparr>] 0 40
          = (fst ?pre, Inl (Exception ''cannot render''))"
    using B by (simp add: example_args_def example_fs_def example_library_def example_document_def)
  note C = T[THEN conjunct2, THEN conjunct2, rule_format,
      where a = ?args and fs = example_fs and p = "''out/a.pdf''", OF 4]
  from 3 B C show ?thesis by simp
qed

section \<open>What compress_smart changes\<close>

lemma recompress_image_Inr:
  assumes "recompress_image L q d pg x = Inr d'"
  shows "\<exists>b. d' = d\<lparr>xref_stream := (xref_stream d)(x \<mapsto> b)\<rparr>"
  using assms
  by (auto simp: recompress_image_def update_image_def split: option.splits sum.splits)

lemma smart_images_frame:
  assumes "doc < length hp" and "smart_images L q doc pg xs (hp, c, t) = (hp', c', t')"
  shows "length hp' = length hp \<and> (\<forall>h. h \<noteq> doc \<longrightarrow> hp' ! h = hp ! h)
       \<and> pages (hp' ! doc) = pages (hp ! doc)
       \<and> is_closed (hp' ! doc) = is_closed (hp ! doc)
       \<and> xref_length (hp' ! doc) = xref_length (hp ! doc)
       \<and> (\<forall>x. x \<notin> set xs \<longrightarrow> xref_stream (hp' ! doc) x = xref_stream (hp ! doc) x)"
  using assms
proof (induction xs arbitrary: hp c t)
  case Nil
  then show ?case by simp
next
  case (Cons x xs)
  show ?case
  proof (cases "recompress_image L q (hp ! doc) pg x")
    case (Inl e)
    with Cons.prems(2) have "smart_images L q doc pg xs (hp, c, t + 1) = (hp', c', t')"
      by simp
    from Cons.IH[OF Cons.prems(1) this] show ?thesis by simp
  next
    case (Inr d')
    with Cons.prems(2)
    have run: "smart_images L q doc pg xs (hp[doc := d'], c + 1, t + 1) = (hp', c', t')"
      by simp
    from recompress_image_Inr[OF Inr] obtain b where
      d': "d' = (hp ! doc)\<lparr>xref_stream := (xref_stream (hp ! doc))(x \<mapsto> b)\<rparr>"
      by blast
    have "doc < length (hp[doc := d'])" using Cons.prems(1) by simp
    moreover have "pages d' = pages (hp ! doc)" "is_closed d' = is_closed (hp ! doc)"
      "xref_length d' = xref_length (hp ! doc)"
      "\<forall>y. y \<noteq> x \<longrightarrow> xref_stream d' y = xref_stream (hp ! doc) y"
      using d' by simp_all
    ultimately show ?thesis
      using Cons.IH[OF _ run] Cons.prems(1) by simp
  qed
qed

lemma smart_pages_frame:
  assumes "doc < length hp" and "smart_pages L q doc pgs (hp, c, t) = (hp', c', t')"
  shows "length hp' = length hp \<and> (\<forall>h. h \<noteq> doc \<longrightarrow> hp' ! h = hp ! h)
       \<and> pages (hp' ! doc) = pages (hp ! doc)
       \<and> is_closed (hp' ! doc) = is_closed (hp ! doc)
       \<and> xref_length (hp' ! doc) = xref_length (hp ! doc)
       \<and> (\<forall>x. x \<notin> (\<Union>pg \<in> set pgs. set (get_images pg)) \<longrightarrow>
             xref_stream (hp' ! doc) x = xref_stream (hp ! doc) x)"
  using assms
proof (induction pgs arbitrary: hp c t)
  case Nil
  then show ?case by simp
next
  case (Cons pg pgs)
  obtain hp1 c1 t1 where
    one: "smart_images L q doc pg (get_images pg) (hp, c, t) = (hp1, c1, t1)"
    by (metis prod_cases3)
  with Cons.prems(2) have rest: "smart_pages L q doc pgs (hp1, c1, t1) = (hp', c', t')"
    by simp
  note f1 = smart_images_frame[OF Cons.prems(1) one]
  then have "doc < length hp1" using Cons.prems(1) by simp
  from Cons.IH[OF this rest] f1 show ?case by simp
qed

text \<open>
  What holds of \<^verbatim>\<open>compress_smart\<close> for every library: it leaves the store with the
  documents it had, none is added, and every document but the one it was given is
  untouched. The document it was given keeps its pages, its closed flag and its
  cross-reference numbers; only streams of images its pages refer to can differ. In smart
  mode \<^verbatim>\<open>main\<close> has one document in its store, the opened one, and what it saves is
  that document as \<^verbatim>\<open>compress_smart\<close> left it.
\<close>

lemma compress_smart_in_place:
  assumes "doc < length hp"
    and "compress_smart L hp doc q = (hp', out, n)"
  shows "length hp' = length hp
       \<and> (\<forall>h. h \<noteq> doc \<longrightarrow> hp' ! h = hp ! h)
       \<and> pages (hp' ! doc) = pages (hp ! doc)
       \<and> is_closed (hp' ! doc) = is_closed (hp ! doc)
       \<and> xref_length (hp' ! doc) = xref_length (hp ! doc)
       \<and> (\<forall>x. x \<notin> (\<Union>pg \<in> set (pages (hp ! doc)). set (get_images pg)) \<longrightarrow>
             xref_stream (hp' ! doc) x = xref_stream (hp ! doc) x)
       \<and> (\<forall>a fs p content d hp1 out1 n1.
             mode a = Smart \<and> fs (input_file a) = Some (File content)
               \<and> fitz_open L (input_file a) content = Inr d
               \<and> compress_smart L [d\<lparr>is_closed := False\<rparr>] 0 q = (hp1, out1, n1)
             \<longrightarrow> length hp1 = 1
               \<and> fst (try_compress L fs a q p) = fst (save L (hp1 ! 0) p fs)
               \<and> fst (snd (try_compress L fs a q p)) = finally_close hp1 0)"
proof -
  obtain c t where run: "smart_pages L q doc (pages (hp ! doc)) (hp, 0, 0) = (hp', c, t)"
    using assms(2) by (auto simp: compress_smart_def split: prod.splits)
  note frame = smart_pages_frame[OF assms(1) run]
  have main: "length hp1 = 1
      \<and> fst (try_compress L fs a q p) = fst (save L (hp1 ! 0) p fs)
      \<and> fst (snd (try_compress L fs a q p)) = finally_close hp1 0"
    if h: "mode a = Smart \<and> fs (input_file a) = Some (File content)
          \<and> fitz_open L (input_file a) content = Inr d
          \<and> compress_smart L [d\<lparr>is_closed := False\<rparr>] 0 q = (hp1, out1, n1)"
    for a fs p content d hp1 out1 n1
  proof -
    obtain c1 t1 where "smart_pages L q 0 (pages ([d\<lparr>is_closed := False\<rparr>] ! 0))
        ([d\<lparr>is_closed := False\<rparr>], 0, 0) = (hp1, c1, t1)"
      using h by (auto simp: compress_smart_def split: prod.splits)
    from smart_pages_frame[OF _ this] have "length hp1 = 1" by simp
    moreover have "fst (try_compress L fs a q p) = fst (save L (hp1 ! 0) p fs)"
      "fst (snd (try_compress L fs a q p)) = finally_close hp1 0"
      using h by (auto simp: try_compress_def Let_def split: prod.splits option.splits)
    ultimately show ?thesis by simp
  qed
  from frame main show ?thesis by blast
qed

text \<open>
  A library whose \<^verbatim>\<open>update_image\<close> raises on every call: each attempt ends in the
  \<^verbatim>\<open>except\<close> clause, so the pass changes nothing and counts nothing.
\<close>

lemma recompress_image_update_raises:
  assumes "\<forall>d p x b. update_image_raises L d p x b \<noteq> None"
  shows "\<exists>e. recompress_image L q d pg x = Inl e"
proof (cases "extract_image L d x")
  case (Inl e)
  then show ?thesis by (simp add: recompress_image_def)
next
  case b: (Inr image_bytes)
  show ?thesis
  proof (cases "pil_jpeg L image_bytes q")
    case (Inl e)
    with b show ?thesis by (simp add: recompress_image_def)
  next
    case (Inr img)
    from assms have "update_image_raises L d pg x img \<noteq> None" by blast
    then obtain e where "update_image_raises L d pg x img = Some e" by blast
    with b Inr show ?thesis by (simp add: recompress_image_def update_image_def)
  qed
qed

lemma smart_images_update_raises:
  assumes "\<forall>d p x b. update_image_raises L d p x b \<noteq> None"
  shows "smart_images L q doc pg xs (hp, c, t) = (hp, c, t + length xs)"
proof (induction xs arbitrary: t)
  case Nil
  then show ?case by simp
next
  case (Cons x xs)
  from recompress_image_update_raises[OF assms] obtain e where
    "recompress_image L q (hp ! doc) pg x = Inl e" by blast
  with Cons.IH[of "t + 1"] show ?case by simp
qed

lemma smart_pages_update_raises:
  assumes "\<forall>d p x b. update_image_raises L d p x b \<noteq> None"
  shows "smart_pages L q doc pgs (hp, c, t)
           = (hp, c, t + length (concat (map (\<lambda>pg. map (Pair pg) (get_images pg)) pgs)))"
  by (induction pgs arbitrary: t) (simp_all add: smart_images_update_raises[OF assms])

lemma compress_smart_without_update_image:
  assumes "\<forall>d p x b. update_image_raises L d p x b \<noteq> None"
  shows "compress_smart L hp doc q
           = (hp, [InfoRecompressed 0 (length (image_references (hp ! doc)))], 0)"
  by (simp add: compress_smart_def smart_pages_update_raises[OF assms] image_references_def)

text \<open>
  C7. \<^verbatim>\<open>fitz.Page\<close> has no method \<^verbatim>\<open>update_image\<close> (PyMuPDF replaces an image
  with \<^verbatim>\<open>Page.replace_image\<close>), so \<^verbatim>\<open>page.update_image(...)\<close> raises
  \<^verbatim>\<open>AttributeError\<close> inside the \<^verbatim>\<open>try\<close> and the \<^verbatim>\<open>except\<close> clause swallows it.
  On the example document with such a library, \<^verbatim>\<open>compress_smart\<close> returns the store it
  was given and the count 0 out of 3 images. With a \<^verbatim>\<open>save\<close> that writes the stream of
  image 5 to the output, the run ends with exit status 0 and the output holds the
  original four bytes of the image, where a library whose \<^verbatim>\<open>update_image\<close> works
  leaves the two re-encoded bytes.
\<close>

theorem compress_smart_replaces_no_image:
  "compress_smart
     (example_library\<lparr>update_image_raises := (\<lambda>d p x b. Some (Exception ''AttributeError''))\<rparr>)
     [example_document] 0 40
     = ([example_document], [InfoRecompressed 0 3], 0)
   \<and> final_fs (main
        (example_library\<lparr>update_image_raises := (\<lambda>d p x b. Some (Exception ''AttributeError'')),
                         doc_save := (\<lambda>d path. (xref_stream d 5, None))\<rparr>)
        example_system example_args example_fs) ''out/a__medium_q40_7.pdf''
     = Some (File [255, 216, 255, 224])
   \<and> exit_status (main
        (example_library\<lparr>update_image_raises := (\<lambda>d p x b. Some (Exception ''AttributeError'')),
                         doc_save := (\<lambda>d path. (xref_stream d 5, None))\<rparr>)
        example_system example_args example_fs) = 0
   \<and> final_fs (main (example_library\<lparr>doc_save := (\<lambda>d path. (xref_stream d 5, None))\<rparr>)
        example_system example_args example_fs) ''out/a__medium_q40_7.pdf''
     = Some (File [255, 216])"
proof -
  have "compress_smart
     (example_library\<lparr>update_image_raises := (\<lambda>d p x b. Some (Exception ''AttributeError''))\<rparr>)
     [example_document] 0 40
     = ([example_document], [InfoRecompressed 0 3], 0)"
    by (simp add: compress_smart_without_update_image image_references_def example_document_def)
  then show ?thesis
    by (simp add: main_defs smart_defs example_defs)
qed

section \<open>The counters of compress_smart and the store it leaves\<close>

lemma recompress_image_attempt:
  "recompress_image L q d pg x
     = (case attempt L q d pg x of
          Skipped e \<Rightarrow> Inl e
        | Recompressed img \<Rightarrow> Inr (d\<lparr>xref_stream := (xref_stream d)(x \<mapsto> img)\<rparr>))"
  by (simp add: recompress_image_def attempt_def update_image_def
      split: sum.splits option.splits)

lemma attempts_length: "length (attempts L q doc refs hp) = length refs"
  by (induction L q doc refs hp rule: attempts.induct) simp_all

lemma attempt_Recompressed:
  "attempt L q d pg x = Recompressed img \<longleftrightarrow>
     (\<exists>b. extract_image L d x = Inr b \<and> pil_jpeg L b q = Inr img
          \<and> update_image_raises L d pg x img = None)"
  by (auto simp: attempt_def split: sum.splits option.splits)

lemma smart_images_attempts:
  assumes "smart_images L q doc pg xs (hp, c, t) = (hp', c', t')"
  shows "t' = t + length xs
       \<and> store_after L q doc (map (Pair pg) xs @ refs) hp = store_after L q doc refs hp'
       \<and> c + length (filter recompressed (attempts L q doc (map (Pair pg) xs @ refs) hp))
           = c' + length (filter recompressed (attempts L q doc refs hp'))"
  using assms
proof (induction xs arbitrary: hp c t)
  case Nil
  then show ?case by simp
next
  case (Cons x xs)
  show ?case
  proof (cases "attempt L q (hp ! doc) pg x")
    case (Skipped e)
    with Cons.prems have "smart_images L q doc pg xs (hp, c, t + 1) = (hp', c', t')"
      by (simp add: recompress_image_attempt)
    from Cons.IH[OF this] Skipped show ?thesis by (simp add: after_attempt_def)
  next
    case (Recompressed img)
    with Cons.prems
    have "smart_images L q doc pg xs
        (hp[doc := (hp ! doc)\<lparr>xref_stream := (xref_stream (hp ! doc))(x \<mapsto> img)\<rparr>], c + 1, t + 1)
        = (hp', c', t')"
      by (simp add: recompress_image_attempt)
    from Cons.IH[OF this] Recompressed show ?thesis by (simp add: after_attempt_def)
  qed
qed

lemma smart_pages_attempts:
  assumes "smart_pages L q doc pgs (hp, c, t) = (hp', c', t')"
  shows "t' = t + length (concat (map (\<lambda>pg. map (Pair pg) (get_images pg)) pgs))
       \<and> store_after L q doc
             (concat (map (\<lambda>pg. map (Pair pg) (get_images pg)) pgs) @ refs) hp
           = store_after L q doc refs hp'
       \<and> c + length (filter recompressed (attempts L q doc
               (concat (map (\<lambda>pg. map (Pair pg) (get_images pg)) pgs) @ refs) hp))
           = c' + length (filter recompressed (attempts L q doc refs hp'))"
  using assms
proof (induction pgs arbitrary: hp c t)
  case Nil
  then show ?case by simp
next
  case (Cons pg pgs)
  obtain hp1 c1 t1 where
    one: "smart_images L q doc pg (get_images pg) (hp, c, t) = (hp1, c1, t1)"
    by (metis prod_cases3)
  with Cons.prems have rest: "smart_pages L q doc pgs (hp1, c1, t1) = (hp', c', t')" by simp
  from smart_images_attempts[OF one,
      of "concat (map (\<lambda>pg. map (Pair pg) (get_images pg)) pgs) @ refs"]
    Cons.IH[OF rest] show ?case by simp
qed

text \<open>
  C9. \<^verbatim>\<open>compress_smart\<close> returns the number of image references that were
  recompressed: those whose extraction returned bytes, whose bytes the codec re-encoded
  and whose replacement did not raise. The total it prints is the number of image
  references of the document, one attempt each, and the returned count is at most that
  total. The store it leaves is the one in which exactly the counted images have had
  their stream replaced by the re-encoded bytes, in the order the loops met them.
\<close>

theorem compress_smart_returns_success_count:
  "snd (snd (compress_smart L hp doc q))
     = length (filter recompressed (attempts L q doc (image_references (hp ! doc)) hp))
   \<and> fst (snd (compress_smart L hp doc q))
     = [InfoRecompressed (snd (snd (compress_smart L hp doc q)))
          (length (image_references (hp ! doc)))]
   \<and> length (attempts L q doc (image_references (hp ! doc)) hp)
     = length (image_references (hp ! doc))
   \<and> snd (snd (compress_smart L hp doc q)) \<le> length (image_references (hp ! doc))
   \<and> fst (compress_smart L hp doc q)
     = store_after L q doc (image_references (hp ! doc)) hp
   \<and> (\<forall>d pg x img. attempt L q d pg x = Recompressed img \<longleftrightarrow>
         (\<exists>b. extract_image L d x = Inr b \<and> pil_jpeg L b q = Inr img
              \<and> update_image_raises L d pg x img = None))"
proof -
  obtain hp' c t where
    run: "smart_pages L q doc (pages (hp ! doc)) (hp, 0, 0) = (hp', c, t)"
    by (metis prod_cases3)
  from smart_pages_attempts[OF run, of "[]"]
  have t: "t = length (image_references (hp ! doc))"
    and st: "hp' = store_after L q doc (image_references (hp ! doc)) hp"
    and c: "c = length (filter recompressed
                  (attempts L q doc (image_references (hp ! doc)) hp))"
    by (simp_all add: image_references_def)
  have "c \<le> length (attempts L q doc (image_references (hp ! doc)) hp)"
    unfolding c by (rule length_filter_le)
  then have le: "c \<le> length (image_references (hp ! doc))" by (simp add: attempts_length)
  have cs: "compress_smart L hp doc q = (hp', [InfoRecompressed c t], c)"
    using run by (simp add: compress_smart_def)
  show ?thesis
    unfolding cs using t st c le by (simp add: attempts_length attempt_Recompressed)
qed

text \<open>
  On the example document with the example library: image 5 is recompressed on the first
  page, the undecodable image 6 is skipped on both pages.
\<close>

lemma compress_smart_example_attempts:
  "attempts example_library 40 0 (image_references example_document) [example_document]
     = [Recompressed [255, 216],
        Skipped (Exception ''cannot identify image file''),
        Skipped (Exception ''cannot identify image file'')]"
  by (simp add: image_references_def attempt_def after_attempt_def
      example_library_def example_document_def)

section \<open>A failing image in compress_smart\<close>

lemma smart_images_append:
  "smart_images L q doc pg (xs @ ys) s
     = smart_images L q doc pg ys (smart_images L q doc pg xs s)"
  by (induction L q doc pg xs s rule: smart_images.induct) (auto split: sum.splits)

lemma smart_pages_append:
  "smart_pages L q doc (ps @ qs) s = smart_pages L q doc qs (smart_pages L q doc ps s)"
  by (induction ps arbitrary: s) auto

lemma smart_images_failing_stream:
  assumes "doc < length hp"
    and "\<forall>d pg. \<exists>e. recompress_image L q d pg x = Inl e"
    and "smart_images L q doc pg xs (hp, c, t) = (hp', c', t')"
  shows "length hp' = length hp \<and> xref_stream (hp' ! doc) x = xref_stream (hp ! doc) x"
  using assms(1,3)
proof (induction xs arbitrary: hp c t)
  case Nil
  then show ?case by simp
next
  case (Cons y xs)
  show ?case
  proof (cases "recompress_image L q (hp ! doc) pg y")
    case (Inl e)
    with Cons.prems(2) have "smart_images L q doc pg xs (hp, c, t + 1) = (hp', c', t')"
      by simp
    from Cons.IH[OF Cons.prems(1) this] show ?thesis .
  next
    case (Inr d')
    have ne: "y \<noteq> x"
    proof
      assume "y = x"
      with assms(2) obtain e where "recompress_image L q (hp ! doc) pg y = Inl e" by blast
      with Inr show False by simp
    qed
    from Inr Cons.prems(2)
    have run: "smart_images L q doc pg xs (hp[doc := d'], c + 1, t + 1) = (hp', c', t')"
      by simp
    from recompress_image_Inr[OF Inr] ne
    have "xref_stream d' x = xref_stream (hp ! doc) x" by auto
    moreover have "doc < length (hp[doc := d'])" using Cons.prems(1) by simp
    ultimately show ?thesis using Cons.IH[OF _ run] Cons.prems(1) by simp
  qed
qed

lemma smart_pages_failing_stream:
  assumes "doc < length hp"
    and "\<forall>d pg. \<exists>e. recompress_image L q d pg x = Inl e"
    and "smart_pages L q doc pgs (hp, c, t) = (hp', c', t')"
  shows "length hp' = length hp \<and> xref_stream (hp' ! doc) x = xref_stream (hp ! doc) x"
  using assms(1,3)
proof (induction pgs arbitrary: hp c t)
  case Nil
  then show ?case by simp
next
  case (Cons pg pgs)
  obtain hp1 c1 t1 where
    one: "smart_images L q doc pg (get_images pg) (hp, c, t) = (hp1, c1, t1)"
    by (metis prod_cases3)
  with Cons.prems(2) have rest: "smart_pages L q doc pgs (hp1, c1, t1) = (hp', c', t')"
    by simp
  note s1 = smart_images_failing_stream[OF Cons.prems(1) assms(2) one]
  then have "doc < length hp1" using Cons.prems(1) by simp
  from Cons.IH[OF this rest] s1 show ?case by simp
qed

lemma compress_smart_failing_image_stream:
  assumes "doc < length hp"
    and "\<forall>d pg. \<exists>e. recompress_image L q d pg x = Inl e"
  shows "xref_stream (fst (compress_smart L hp doc q) ! doc) x = xref_stream (hp ! doc) x"
proof -
  obtain hp' c t where
    run: "smart_pages L q doc (pages (hp ! doc)) (hp, 0, 0) = (hp', c, t)"
    by (metis prod_cases3)
  from smart_pages_failing_stream[OF assms run] run show ?thesis
    by (simp add: compress_smart_def)
qed

text \<open>
  C3. Let image \<open>x\<close> of page \<open>pg\<close> raise in the body of the \<^verbatim>\<open>try\<close>, in the store
  \<open>hp1\<close> that the earlier pages and the earlier images of \<open>pg\<close> left. Then after \<open>x\<close>
  the store is still \<open>hp1\<close> (no stream has changed) and the count of recompressed images
  is unchanged; only the total has grown by one. The pass goes on with the images after
  \<open>x\<close> and the pages after \<open>pg\<close>, and \<^verbatim>\<open>compress_smart\<close> returns what they produce.
  An image that raises wherever it is met has, after the whole pass, the stream it had
  before it (\<open>compress_smart_failing_image_stream\<close>).
\<close>

theorem compress_smart_skips_failing_image:
  assumes "pages (hp ! doc) = ps @ pg # rest"
    and "get_images pg = xs @ x # ys"
    and "smart_images L q doc pg xs (smart_pages L q doc ps (hp, 0, 0)) = (hp1, c1, t1)"
    and "recompress_image L q (hp1 ! doc) pg x = Inl e"
  shows "smart_images L q doc pg (xs @ [x]) (smart_pages L q doc ps (hp, 0, 0))
           = (hp1, c1, t1 + 1)
       \<and> compress_smart L hp doc q
           = (case smart_pages L q doc rest (smart_images L q doc pg ys (hp1, c1, t1 + 1)) of
                (hp', image_count, total_images) \<Rightarrow>
                  (hp', [InfoRecompressed image_count total_images], image_count))"
proof -
  have one: "smart_images L q doc pg (xs @ [x]) (smart_pages L q doc ps (hp, 0, 0))
      = (hp1, c1, t1 + 1)"
    using assms(3,4) by (simp add: smart_images_append)
  have "smart_images L q doc pg (get_images pg) (smart_pages L q doc ps (hp, 0, 0))
      = smart_images L q doc pg ys (hp1, c1, t1 + 1)"
    using one smart_images_append[of L q doc pg "xs @ [x]" ys] assms(2) by simp
  then have "smart_pages L q doc (pages (hp ! doc)) (hp, 0, 0)
      = smart_pages L q doc rest (smart_images L q doc pg ys (hp1, c1, t1 + 1))"
    by (simp add: assms(1) smart_pages_append)
  with one show ?thesis by (simp add: compress_smart_def)
qed

theorem compress_smart_skips_failing_image_witness:
  "recompress_image example_library 40
     (example_document\<lparr>xref_stream := (xref_stream example_document)(5 \<mapsto> [255, 216])\<rparr>)
     (pages example_document ! 0) 6 = Inl (Exception ''cannot identify image file'')
   \<and> snd (compress_smart example_library [example_document] 0 40)
       = ([InfoRecompressed 1 3], 1)
   \<and> xref_stream (fst (compress_smart example_library [example_document] 0 40) ! 0) 6
       = xref_stream example_document 6"
proof -
  let ?hp1 = "[example_document\<lparr>xref_stream := (xref_stream example_document)(5 \<mapsto> [255, 216])\<rparr>]"
  have 1: "pages ([example_document] ! 0)
      = [] @ (pages example_document ! 0) # [pages example_document ! 1]"
    by (simp add: example_document_def)
  have 2: "get_images (pages example_document ! 0) = [5] @ 6 # []"
    by (simp add: example_document_def)
  have 3: "smart_images example_library 40 0 (pages example_document ! 0) [5]
      (smart_pages example_library 40 0 [] ([example_document], 0, 0)) = (?hp1, 1, 0 + 1)"
    by (simp add: smart_defs example_library_def example_document_def)
  have 4: "recompress_image example_library 40 (?hp1 ! 0) (pages example_document ! 0) 6
      = Inl (Exception ''cannot identify image file'')"
    by (simp add: smart_defs example_library_def example_document_def)
  from compress_smart_skips_failing_image[OF 1 2 3 4]
  have "compress_smart example_library [example_document] 0 40
      = (case smart_pages example_library 40 0 [pages example_document ! 1]
               (smart_images example_library 40 0 (pages example_document ! 0) [] (?hp1, 1, 0 + 1 + 1)) of
           (hp', image_count, total_images) \<Rightarrow>
             (hp', [InfoRecompressed image_count total_images], image_count))"
    by simp
  then have "compress_smart example_library [example_document] 0 40
      = (?hp1, [InfoRecompressed 1 3], 1)"
    by (simp add: smart_defs example_library_def example_document_def)
  with 4 show ?thesis by (simp add: example_document_def)
qed

section \<open>Validation of the quality argument\<close>

lemma main_rejects_nonzero_out_of_range:
  assumes "isfile fs (input_file a)" and "quality a = Some n" and "n \<noteq> 0"
    and "n < 1 \<or> 95 < n"
  shows "main L S a fs
           = \<lparr>final_fs = fs, final_heap = [], printed = [ErrorQuality], exit_status = 1\<rparr>"
  using assms by (auto simp: main_def truth_quality_def)

lemma try_compress_profile:
  "try_compress L fs (a\<lparr>profile := pr\<rparr>) qv p = try_compress L fs a qv p"
  by (simp add: try_compress_def cong: option.case_cong node.case_cong sum.case_cong)

lemma main_quality_overrides_profile:
  assumes "quality a = Some n" and "1 \<le> n" and "n \<le> 95"
  shows "main L S (a\<lparr>profile := pr\<rparr>) fs = main L S a fs"
  using assms
  by (simp add: main_def truth_quality_def try_compress_profile Let_def
      cong: prod.case_cong sum.case_cong if_cong)

lemma main_uses_given_quality:
  assumes "quality a = Some n" and "1 \<le> n" and "n \<le> 95" and "isfile fs (input_file a)"
  shows "hd (printed (main L S a fs)) = Initialized ''custom'' (output_dir a) n"
  using assms
  by (simp add: main_def truth_quality_def Let_def split: prod.splits sum.splits)

text \<open>
  C2. A quality other than 0 outside 1..95 is rejected with exit status 1 before anything
  is written (\<open>main_rejects_nonzero_out_of_range\<close>), and a quality within 1..95 is the
  one used, whatever the profile (\<open>main_uses_given_quality\<close>,
  \<open>main_quality_overrides_profile\<close>). Quality 0 is not rejected: \<^verbatim>\<open>if args.quality:\<close>
  is false for it, so the run takes the profile's quality (40 for the default profile),
  compresses, writes the output file and ends with exit status 0.
\<close>

theorem main_quality_zero_is_accepted:
  "exit_status (main example_library example_system (example_args\<lparr>quality := Some 0\<rparr>)
      example_fs) = 0
   \<and> printed (main example_library example_system (example_args\<lparr>quality := Some 0\<rparr>)
      example_fs)
     = [Initialized ''medium'' ''out'' 40, InfoCreatedDir ''out'',
        OriginalSize (8 / (1024 * 1024)), RunningSmart, InfoRecompressed 1 3,
        Successful ''out/a__medium_q40_7.pdf'' (4 / (1024 * 1024)) 50]
   \<and> final_fs (main example_library example_system (example_args\<lparr>quality := Some 0\<rparr>)
      example_fs) ''out/a__medium_q40_7.pdf'' = Some (File [37, 80, 68, 70])"
  by (simp add: main_defs smart_defs example_defs)

section \<open>Failed runs\<close>

lemma report_failure:
  assumes "report S fs p osz False = (fs', out, status)"
  shows "out = [Failed]" and "\<not> isfile fs' p"
    and "status = (if fs p = Some Dir then 1 else 0)"
  using assms
  by (auto simp: report_def isfile_def split: option.splits node.splits)

text \<open>
  C5. A run of the example input in smart mode whose \<^verbatim>\<open>save\<close> raises after writing two
  bytes: the exception is printed, the run is reported as failed, the partly written
  output file is removed, and \<^verbatim>\<open>main\<close> returns, so the exit status is 0.
\<close>

theorem main_failed_save_exit_status:
  "exit_status (main
      (example_library\<lparr>doc_save := (\<lambda>d path.
         (Some [37, 80], Some (Exception ''No space left on device'')))\<rparr>)
      example_system example_args example_fs) = 0
   \<and> printed (main
      (example_library\<lparr>doc_save := (\<lambda>d path.
         (Some [37, 80], Some (Exception ''No space left on device'')))\<rparr>)
      example_system example_args example_fs)
     = [Initialized ''medium'' ''out'' 40, InfoCreatedDir ''out'',
        OriginalSize (8 / (1024 * 1024)), RunningSmart, InfoRecompressed 1 3,
        FatalError (Exception ''No space left on device''), Failed]
   \<and> final_fs (main
      (example_library\<lparr>doc_save := (\<lambda>d path.
         (Some [37, 80], Some (Exception ''No space left on device'')))\<rparr>)
      example_system example_args example_fs) ''out/a__medium_q40_7.pdf'' = None"
  by (simp add: main_defs smart_defs example_defs)

lemma new_page_is_closed: "new_page L d w h = Inr d' \<Longrightarrow> is_closed d' = is_closed d"
  by (auto simp: new_page_def split: option.splits)

lemma insert_image_is_closed: "insert_image L d r s = Inr d' \<Longrightarrow> is_closed d' = is_closed d"
  by (auto simp: insert_image_def Let_def split: option.splits)

lemma aggressive_pages_is_closed:
  assumes "output_doc < length hp"
    and "aggressive_pages L q doc output_doc pgs hp = (hp', r)"
  shows "length hp' = length hp \<and> is_closed (hp' ! output_doc) = is_closed (hp ! output_doc)"
  using assms
proof (induction pgs arbitrary: hp)
  case Nil
  then show ?case by simp
next
  case (Cons pg pgs)
  show ?case
  proof (cases "rasterize_page L q (hp ! doc) pg")
    case (Inl e)
    with Cons.prems show ?thesis by simp
  next
    case buf: (Inr img_buffer)
    show ?thesis
    proof (cases "new_page L (hp ! output_doc) (rect_width pg) (rect_height pg)")
      case (Inl e)
      with buf Cons.prems show ?thesis by simp
    next
      case np: (Inr out1)
      show ?thesis
      proof (cases "insert_image L out1 (rect_width pg, rect_height pg) img_buffer")
        case (Inl e)
        with buf np Cons.prems new_page_is_closed[OF np] show ?thesis by auto
      next
        case ii: (Inr out2)
        with buf np Cons.prems(2)
        have rest: "aggressive_pages L q doc output_doc pgs (hp[output_doc := out2]) = (hp', r)"
          by simp
        have "output_doc < length (hp[output_doc := out2])" using Cons.prems(1) by simp
        from Cons.IH[OF this rest] Cons.prems(1)
          new_page_is_closed[OF np] insert_image_is_closed[OF ii]
        show ?thesis by simp
      qed
    qed
  qed
qed

lemma try_compress_output_left_open:
  assumes "mode a = Aggressive" and "fs (input_file a) = Some (File content)"
    and "fitz_open L (input_file a) content = Inr d"
    and "compress_aggressive L [d\<lparr>is_closed := False\<rparr>] 0 q = (hp1, Inr output_doc)"
    and "snd (save L (hp1 ! output_doc) p fs) = Some e"
  shows "output_doc = 1"
    and "length (fst (snd (try_compress L fs a q p))) = 2"
    and "\<not> is_closed (fst (snd (try_compress L fs a q p)) ! output_doc)"
proof -
  let ?hp0 = "[d\<lparr>is_closed := False\<rparr>, empty_document]"
  from assms(4) have out: "output_doc = 1"
    and run: "aggressive_pages L q 0 1 (pages (?hp0 ! 0)) ?hp0 = (hp1, None)"
    by (auto simp: compress_aggressive_def Let_def split: prod.splits option.splits)
  from aggressive_pages_is_closed[OF _ run]
  have len: "length hp1 = 2" and opn: "\<not> is_closed (hp1 ! 1)"
    by (simp_all add: empty_document_def)
  have tc: "fst (snd (try_compress L fs a q p)) = finally_close hp1 0"
    using assms by (auto simp: try_compress_def Let_def split: prod.splits)
  show "output_doc = 1" by (rule out)
  show "length (fst (snd (try_compress L fs a q p))) = 2"
    using len by (simp add: tc finally_close_def close_def)
  show "\<not> is_closed (fst (snd (try_compress L fs a q p)) ! output_doc)"
    using len opn by (simp add: tc out finally_close_def close_def)
qed

text \<open>
  C8. A run of the example input in aggressive mode whose \<^verbatim>\<open>save\<close> raises: at the end
  of the run the input document (handle 0) is closed and the output document (handle 1)
  is not. When \<^verbatim>\<open>save\<close> returns, both are closed. The output document is left open
  whenever \<^verbatim>\<open>save\<close> raises in aggressive mode (\<open>try_compress_output_left_open\<close>):
  \<^verbatim>\<open>output_doc.close()\<close> follows \<^verbatim>\<open>save\<close> inside the \<^verbatim>\<open>try\<close>, and the
  \<^verbatim>\<open>finally\<close> clause closes the input document only.
\<close>

theorem main_failed_save_leaves_output_open:
  "map is_closed (final_heap (main
      (example_library\<lparr>doc_save := (\<lambda>d path.
         (None, Some (Exception ''Permission denied'')))\<rparr>)
      example_system (example_args\<lparr>mode := Aggressive\<rparr>) example_fs)) = [True, False]
   \<and> map is_closed (final_heap (main example_library example_system
        (example_args\<lparr>mode := Aggressive\<rparr>) example_fs)) = [True, True]"
  by (simp add: main_defs aggressive_defs example_defs)

section \<open>The report of main\<close>

lemma get_output_path_frame:
  assumes "get_output_path S fs inp odir pn qv = (fs1, out1, op)"
  shows "Successful p c r \<notin> set out1" and "isfile fs inp \<Longrightarrow> fs1 inp = fs inp"
  using assms
  by (auto simp: get_output_path_def Let_def isfile_def exists_def
      split: if_splits option.splits)

lemma compress_smart_printed:
  "compress_smart L hp doc q = (hp1, out, n) \<Longrightarrow> Successful p c r \<notin> set out"
  by (auto simp: compress_smart_def split: prod.splits)

lemma try_compress_printed:
  assumes "try_compress L fs a qv op = (fs2, hp, out2, success)"
  shows "Successful p c r \<notin> set out2"
  using assms
  by (auto simp: try_compress_def Let_def
      split: sum.splits option.splits node.splits mode.splits prod.splits
      dest: compress_smart_printed)

lemma report_Successful:
  assumes "report S fs2 op osz success = (fs3, out3, status)"
    and "Successful p c r \<in> set out3"
  shows "fs3 = fs2 \<and> p = op \<and> status = 0
       \<and> (\<exists>m. getsize S fs2 op = Inr m \<and> c = real m / (1024 * 1024)
              \<and> r = reduction_percent (real m / (1024 * 1024)) osz)"
  using assms
  by (auto simp: report_def Let_def split: if_splits sum.splits option.splits node.splits)

lemma main_Successful:
  assumes "Successful p c r \<in> set (printed (main L S a fs))"
  shows "exit_status (main L S a fs) = 0
       \<and> (\<exists>n m. getsize S fs (input_file a) = Inr n
              \<and> getsize S (final_fs (main L S a fs)) p = Inr m
              \<and> c = real m / (1024 * 1024)
              \<and> r = reduction_percent (real m / (1024 * 1024)) (real n / (1024 * 1024)))"
proof -
  define qv where "qv = (if truth_quality (quality a) then the (quality a)
                         else COMPRESSION_PROFILES (profile a))"
  define pn where "pn = (if truth_quality (quality a) then ''custom''
                         else profile_key (profile a))"
  obtain fs1 out1 op where
    gop: "get_output_path S fs (input_file a) (output_dir a) pn qv = (fs1, out1, op)"
    by (metis prod_cases3)
  from assms have isf: "isfile fs (input_file a)"
    by (auto simp: main_def split: if_splits)
  note f = get_output_path_frame[OF gop]
  from assms isf gop f(1) obtain n where
    n: "getsize S fs1 (input_file a) = Inr n"
    and opok: "op \<noteq> None"
    by (auto simp: main_def Let_def qv_def[symmetric] pn_def[symmetric]
        split: if_splits sum.splits)
  obtain fs2 hp out2 success where
    tc: "try_compress L fs1 a qv (the op) = (fs2, hp, out2, success)"
    by (metis prod_cases4)
  obtain fs3 out3 status where
    rp: "report S fs2 (the op) (real n / (1024 * 1024)) success = (fs3, out3, status)"
    by (metis prod_cases3)
  from assms isf gop n tc rp f(1) try_compress_printed[OF tc]
  have in3: "Successful p c r \<in> set out3"
    and fin: "final_fs (main L S a fs) = fs3" "exit_status (main L S a fs) = status"
    by (auto simp: main_def Let_def qv_def[symmetric] pn_def[symmetric]
        split: if_splits)
  have "getsize S fs (input_file a) = Inr n"
    using n f(2)[OF isf] by (simp add: getsize_def)
  with report_Successful[OF rp in3] fin show ?thesis by auto
qed

lemma reduction_percent_mb:
  "0 < n \<Longrightarrow> reduction_percent (real m / (1024 * 1024)) (real n / (1024 * 1024))
     = (1 - real m / real n) * 100"
  by (simp add: reduction_percent_def)

text \<open>
  C6. When a run reports success on an input file of positive size, the reduction it
  reports is \<open>(1 - compressed_size / original_size) * 100\<close>, for the byte size of the
  file at the reported output path after the run and the byte size of the input file
  before it.
\<close>

theorem main_reduction_percent:
  assumes "Successful p c r \<in> set (printed (main L S a fs))"
    and "getsize S fs (input_file a) = Inr original_size"
    and "0 < original_size"
  shows "\<exists>compressed_size.
           getsize S (final_fs (main L S a fs)) p = Inr compressed_size
         \<and> r = (1 - real compressed_size / real original_size) * 100"
proof -
  from main_Successful[OF assms(1)] assms(2) obtain m where
    m: "getsize S (final_fs (main L S a fs)) p = Inr m"
    and r: "r = reduction_percent (real m / (1024 * 1024)) (real original_size / (1024 * 1024))"
    by auto
  from r have "r = (1 - real m / real original_size) * 100"
    by (simp only: reduction_percent_mb[OF assms(3)])
  with m show ?thesis by blast
qed

theorem main_reduction_percent_witness:
  "Successful ''out/a__medium_q40_7.pdf'' (4 / (1024 * 1024)) 50
     \<in> set (printed (main example_library example_system example_args example_fs))
   \<and> getsize example_system example_fs (input_file example_args) = Inr 8
   \<and> (\<exists>compressed_size.
         getsize example_system
           (final_fs (main example_library example_system example_args example_fs))
           ''out/a__medium_q40_7.pdf'' = Inr compressed_size
       \<and> (50::real) = (1 - real compressed_size / real (8::nat)) * 100)"
proof -
  have 1: "Successful ''out/a__medium_q40_7.pdf'' (4 / (1024 * 1024)) 50
     \<in> set (printed (main example_library example_system example_args example_fs))"
    by (simp add: main_defs smart_defs example_defs)
  have 2: "getsize example_system example_fs (input_file example_args) = Inr 8"
    by (simp add: getsize_def example_fs_def example_args_def)
  have 3: "(0::nat) < 8" by simp
  from main_reduction_percent[OF 1 2 3] 1 2 show ?thesis by blast
qed

text \<open>
  C10. When a run reports success on an input file of size zero, the reduction it reports
  is 0: for an original size of 0, \<^verbatim>\<open>reduction_percent\<close> is 0 whatever the compressed
  size, and no division is evaluated.
\<close>

theorem main_reduction_percent_zero_size:
  assumes "Successful p c r \<in> set (printed (main L S a fs))"
    and "getsize S fs (input_file a) = Inr 0"
  shows "r = 0 \<and> (\<forall>x. reduction_percent x 0 = 0)"
  using main_Successful[OF assms(1)] assms(2) by (auto simp: reduction_percent_def)

theorem main_reduction_percent_zero_size_witness:
  "Successful ''out/a__medium_q40_7.pdf'' (4 / (1024 * 1024)) 0
     \<in> set (printed (main (example_library\<lparr>fitz_open := (\<lambda>path content. Inr example_document)\<rparr>)
          example_system example_args [''a.pdf'' \<mapsto> File []]))
   \<and> getsize example_system [''a.pdf'' \<mapsto> File []] (input_file example_args) = Inr 0
   \<and> reduction_percent (4 / (1024 * 1024)) 0 = 0"
proof -
  have 1: "Successful ''out/a__medium_q40_7.pdf'' (4 / (1024 * 1024)) 0
     \<in> set (printed (main (example_library\<lparr>fitz_open := (\<lambda>path content. Inr example_document)\<rparr>)
          example_system example_args [''a.pdf'' \<mapsto> File []]))"
    by (simp add: main_defs smart_defs example_defs)
  have 2: "getsize example_system [''a.pdf'' \<mapsto> File []] (input_file example_args) = Inr 0"
    by (simp add: getsize_def example_args_def)
  from main_reduction_percent_zero_size[OF 1 2] 1 2 show ?thesis by blast
qed

end
